theory Spec2Isabelle
  imports Main "HOL-Library.Word"
begin

section \<open>Data model of pkg/util/kubernetes/hpa/hpa.go\<close>

text \<open>
  Go's \<open>int64\<close> is a 64-bit word: \<open>-\<close> wraps around and \<open>\<le>s\<close> is the signed
  comparison. A \<open>map[string]string\<close> is a partial map.
\<close>

type_synonym int64 = "64 word"
type_synonym labels = "string \<rightharpoonup> string"

text \<open>
  \<open>custommetrics.ObjectReference\<close> and \<open>custommetrics.ExternalMetricValue\<close>, with the
  fields that hpa.go reads and writes.
\<close>

record ObjectReference =
  Name :: string
  Namespace :: string
  UID :: string

record ExternalMetricValue =
  MetricName :: string
  Labels :: labels
  Timestamp :: int64
  HPA :: ObjectReference
  Value :: int64
  Valid :: bool

text \<open>
  Modelled from the spec: the declarations of the autoscaling policy object
  (\<open>autoscalingv2.HorizontalPodAutoscaler\<close> and the types of its \<open>Spec.Metrics\<close>
  entries) are not part of the source file. The shape is the one the specification gives:
  an object with a name, a namespace, a uid and an ordered sequence of metric specs, each
  tagged with a source type, where an entry carries a metric name and a label selector
  (a mapping from string to string). The field paths are the ones hpa.go uses.
\<close>

record LabelSelector =
  MatchLabels :: labels

record ExternalMetricSource =
  MetricName :: string
  MetricSelector :: LabelSelector

record MetricSpec =
  Type :: string
  External :: ExternalMetricSource

record HorizontalPodAutoscalerSpec =
  Metrics :: "MetricSpec list"

record HorizontalPodAutoscaler =
  Name :: string
  Namespace :: string
  UID :: string
  Spec :: HorizontalPodAutoscalerSpec

definition ExternalMetricSourceType :: string where
  "ExternalMetricSourceType = ''External''"

text \<open>
  The \<open>Processor\<close>. \<open>externalMaxAge\<close> is a \<open>time.Duration\<close>, a count of nanoseconds
  in an \<open>int64\<close>. The \<open>datadogClient\<close> is reached only through
  \<open>queryDatadogExternal\<close>, which is a collaborator below.
\<close>

record Processor =
  externalMaxAge :: int64

subsection \<open>The collaborators and the observable world\<close>

text \<open>
  What hpa.go calls and does not define is a parameter of the model:
  \<^item> \<open>Seconds d\<close> is \<open>int64(d.Seconds())\<close> for a duration \<open>d\<close>;
  \<^item> \<open>Now_Unix k\<close> is what the \<open>k\<close>-th call of \<open>metav1.Now().Unix()\<close> returns
    (nothing makes two readings of the clock equal, or ordered);
  \<^item> \<open>queryDatadogExternal k name ls\<close> is what the \<open>k\<close>-th call of
    \<open>p.queryDatadogExternal(name, ls)\<close> returns: a value and an optional error.
\<close>

record env =
  Seconds :: "int64 \<Rightarrow> int64"
  Now_Unix :: "nat \<Rightarrow> int64"
  queryDatadogExternal :: "nat \<Rightarrow> string \<Rightarrow> labels \<Rightarrow> int64 \<times> string option"

datatype log_line =
  Debug_CouldNotFetch string string
| Debug_Updated ExternalMetricValue
| Debug_UnsupportedMetricType string
| Error_EmptyList string string

text \<open>
  The effects of a call are recorded in the world: how often the clock has been read, the
  provider queries issued so far (in order), and the log lines written so far.
\<close>

record world =
  clock_reads :: nat
  queries :: "(string \<times> labels) list"
  log_lines :: "log_line list"

datatype panic = NilPointerDereference

definition Now :: "env \<Rightarrow> world \<Rightarrow> int64 \<times> world" where
  "Now e w = (Now_Unix e (clock_reads w), w\<lparr>clock_reads := Suc (clock_reads w)\<rparr>)"

definition Debugf :: "log_line \<Rightarrow> world \<Rightarrow> world" where
  "Debugf l w = w\<lparr>log_lines := log_lines w @ [l]\<rparr>"

definition Errorf :: "log_line \<Rightarrow> world \<Rightarrow> world" where
  "Errorf l w = w\<lparr>log_lines := log_lines w @ [l]\<rparr>"

definition query :: "env \<Rightarrow> string \<Rightarrow> labels \<Rightarrow> world \<Rightarrow> (int64 \<times> string option) \<times> world" where
  "query e metricName ls w =
     (queryDatadogExternal e (length (queries w)) metricName ls,
      w\<lparr>queries := queries w @ [(metricName, ls)]\<rparr>)"

section \<open>validateExternalMetric\<close>

definition validateExternalMetric ::
  "env \<Rightarrow> Processor \<Rightarrow> string \<Rightarrow> labels \<Rightarrow> world \<Rightarrow> (int64 \<times> bool \<times> string option) \<times> world" where
  "validateExternalMetric e p metricName ls w =
     (let ((val, err), w1) = query e metricName ls w
      in case err of
           Some msg \<Rightarrow> ((val, False, Some msg), w1)
         | None \<Rightarrow> ((val, True, None), w1))"

section \<open>ComputeDeleteExternalMetrics\<close>

text \<open>
  The two slices the caller passes stay in the frame next to the locals \<open>uids\<close> and
  \<open>deleted\<close>, so that what the function does to them is part of its result. An element of
  \<open>list\<close> is a pointer: \<open>None\<close> is nil, and reading \<open>hpa.UID\<close> through it panics.
\<close>

record gc_frame =
  list :: "HorizontalPodAutoscaler option list"
  emList :: "ExternalMetricValue list"
  uids :: "string \<rightharpoonup> unit"
  deleted :: "ExternalMetricValue list"
  gc_world :: world

fun range_loop :: "(nat \<Rightarrow> 's \<Rightarrow> panic + 's) \<Rightarrow> nat list \<Rightarrow> 's \<Rightarrow> panic + 's" where
  "range_loop f [] s = Inr s"
| "range_loop f (i # is) s =
     (case f i s of Inl e \<Rightarrow> Inl e | Inr s' \<Rightarrow> range_loop f is s')"

definition gc_uids_step :: "nat \<Rightarrow> gc_frame \<Rightarrow> panic + gc_frame" where
  "gc_uids_step i s =
     (case list s ! i of
        None \<Rightarrow> Inl NilPointerDereference
      | Some hpa \<Rightarrow> Inr (s\<lparr>uids := (uids s)(HorizontalPodAutoscaler.UID hpa \<mapsto> ())\<rparr>))"

definition gc_deleted_step :: "nat \<Rightarrow> gc_frame \<Rightarrow> gc_frame" where
  "gc_deleted_step i s =
     (let em = gc_frame.emList s ! i
      in if uids s (ObjectReference.UID (HPA em)) = None
         then s\<lparr>deleted := deleted s @ [em]\<rparr>
         else s)"

text \<open>
  The result is the returned slice together with the two input slices and the world as
  the call leaves them.
\<close>

definition ComputeDeleteExternalMetrics ::
  "HorizontalPodAutoscaler option list \<Rightarrow> ExternalMetricValue list \<Rightarrow> world \<Rightarrow>
     panic + (ExternalMetricValue list \<times> gc_frame)" where
  "ComputeDeleteExternalMetrics hpas ems w =
     (case range_loop gc_uids_step [0..<length hpas]
             \<lparr>list = hpas, emList = ems, uids = Map.empty, deleted = [], gc_world = w\<rparr> of
        Inl e \<Rightarrow> Inl e
      | Inr s \<Rightarrow>
          (let s' = fold gc_deleted_step [0..<length (gc_frame.emList s)] s
           in Inr (deleted s', s')))"

section \<open>UpdateExternalMetrics\<close>

text \<open>
  The body of the loop works on \<open>em\<close>, the copy of the element that \<open>range\<close> makes.
  The clock is read once for the test of line 64 and once more for line 68.
\<close>

definition refresh ::
  "env \<Rightarrow> Processor \<Rightarrow> int64 \<Rightarrow> ExternalMetricValue \<Rightarrow>
     ExternalMetricValue list \<times> world \<Rightarrow> ExternalMetricValue list \<times> world" where
  "refresh e p maxAge em0 st =
     (let (updated, w) = st;
          (now1, w1) = Now e w
      in if now1 - Timestamp em0 \<le>s maxAge \<and> Valid em0 then (updated, w1)
         else
           (let em1 = em0\<lparr>Valid := False\<rparr>;
                (now2, w2) = Now e w1;
                em2 = em1\<lparr>Timestamp := now2\<rparr>;
                ((val, ok, err), w3) =
                   validateExternalMetric e p (ExternalMetricValue.MetricName em2) (Labels em2) w2;
                em3 = em2\<lparr>Value := val, Valid := ok\<rparr>;
                w4 = (case err of
                        Some msg \<Rightarrow> Debugf (Debug_CouldNotFetch (ExternalMetricValue.MetricName em3) msg) w3
                      | None \<Rightarrow> w3);
                w5 = Debugf (Debug_Updated em3) w4
            in (updated @ [em3], w5)))"

record update_frame =
  emList :: "ExternalMetricValue list"
  updated :: "ExternalMetricValue list"
  up_world :: world

definition update_step :: "env \<Rightarrow> Processor \<Rightarrow> int64 \<Rightarrow> nat \<Rightarrow> update_frame \<Rightarrow> update_frame" where
  "update_step e p maxAge i s =
     (let em = update_frame.emList s ! i;
          (upd, w) = refresh e p maxAge em (updated s, up_world s)
      in s\<lparr>updated := upd, up_world := w\<rparr>)"

text \<open>
  \<open>update_loop e p maxAge n s\<close> is the frame after the first \<open>n\<close> iterations of the
  loop, started in the frame \<open>s\<close>.
\<close>

definition update_loop :: "env \<Rightarrow> Processor \<Rightarrow> int64 \<Rightarrow> nat \<Rightarrow> update_frame \<Rightarrow> update_frame" where
  "update_loop e p maxAge n s = fold (update_step e p maxAge) [0..<n] s"

text \<open>
  The result is the returned slice together with the frame the call leaves: the input
  slice and the world.
\<close>

definition UpdateExternalMetrics ::
  "env \<Rightarrow> Processor \<Rightarrow> ExternalMetricValue list \<Rightarrow> world \<Rightarrow>
     ExternalMetricValue list \<times> update_frame" where
  "UpdateExternalMetrics e p ems w =
     (let maxAge = Seconds e (externalMaxAge p);
          s = update_loop e p maxAge (length ems)
                \<lparr>emList = ems, updated = [], up_world = w\<rparr>
      in (updated s, s))"

section \<open>ProcessHPAs\<close>

definition process_metric ::
  "env \<Rightarrow> Processor \<Rightarrow> HorizontalPodAutoscaler \<Rightarrow> MetricSpec \<Rightarrow>
     ExternalMetricValue list \<times> world \<Rightarrow> ExternalMetricValue list \<times> world" where
  "process_metric e p hpa metricSpec st =
     (let (externalMetrics, w) = st
      in if Type metricSpec = ExternalMetricSourceType then
           (let (now, w1) = Now e w;
                m = \<lparr>ExternalMetricValue.MetricName = ExternalMetricSource.MetricName (External metricSpec),
                     Labels = MatchLabels (MetricSelector (External metricSpec)),
                     Timestamp = now,
                     HPA = \<lparr>ObjectReference.Name = HorizontalPodAutoscaler.Name hpa,
                            Namespace = HorizontalPodAutoscaler.Namespace hpa,
                            UID = HorizontalPodAutoscaler.UID hpa\<rparr>,
                     Value = 0,
                     Valid = False\<rparr>;
                ((val, ok, err), w2) =
                   validateExternalMetric e p (ExternalMetricValue.MetricName m) (Labels m) w1;
                m' = m\<lparr>Value := val, Valid := ok\<rparr>;
                w3 = (case err of
                        Some msg \<Rightarrow> Debugf (Debug_CouldNotFetch (ExternalMetricValue.MetricName m') msg) w2
                      | None \<Rightarrow> w2)
            in (externalMetrics @ [m'], w3))
         else (externalMetrics, Debugf (Debug_UnsupportedMetricType (Type metricSpec)) w))"

text \<open>
  \<open>hpa\<close> is a pointer: \<open>None\<close> is nil, and \<open>hpa.Spec\<close> panics on it. A returned nil
  slice is the empty list.
\<close>

definition ProcessHPAs ::
  "env \<Rightarrow> Processor \<Rightarrow> HorizontalPodAutoscaler option \<Rightarrow> world \<Rightarrow>
     panic + (ExternalMetricValue list \<times> world)" where
  "ProcessHPAs e p ptr w =
     (case ptr of
        None \<Rightarrow> Inl NilPointerDereference
      | Some hpa \<Rightarrow>
          if length (Metrics (Spec hpa)) = 0
          then Inr ([], Errorf (Error_EmptyList (HorizontalPodAutoscaler.Namespace hpa)
                                  (HorizontalPodAutoscaler.Name hpa)) w)
          else Inr (fold (process_metric e p hpa) (Metrics (Spec hpa)) ([], w)))"

section \<open>Notions the properties are stated with\<close>

text \<open>
  \<open>pass_frame e p ems w n\<close> is the frame of \<open>UpdateExternalMetrics\<close> on the slice
  \<open>ems\<close>, started in the world \<open>w\<close>, after the first \<open>n\<close> iterations of its loop;
  \<open>maxAge\<close> is computed on line 60, before the loop. The call returns the list
  \<open>updated\<close> of the frame after \<open>length ems\<close> iterations, and iteration \<open>i\<close> takes
  the frame after \<open>i\<close> iterations to the frame after \<open>Suc i\<close>.
\<close>

definition pass_frame :: "env \<Rightarrow> Processor \<Rightarrow> ExternalMetricValue list \<Rightarrow> world \<Rightarrow> nat \<Rightarrow> update_frame" where
  "pass_frame e p ems w n =
     update_loop e p (Seconds e (externalMaxAge p)) n \<lparr>emList = ems, updated = [], up_world = w\<rparr>"

text \<open>
  \<open>fresh_at e p ems w i\<close> is the test of line 64 for the record at index \<open>i\<close>, with the
  clock reading that iteration \<open>i\<close> of the pass takes.
\<close>

definition fresh_at :: "env \<Rightarrow> Processor \<Rightarrow> ExternalMetricValue list \<Rightarrow> world \<Rightarrow> nat \<Rightarrow> bool" where
  "fresh_at e p ems w i =
     (Now_Unix e (clock_reads (up_world (pass_frame e p ems w i))) - Timestamp (ems ! i)
        \<le>s Seconds e (externalMaxAge p) \<and> Valid (ems ! i))"

text \<open>
  \<open>revalidate e w em\<close> is the record that lines 67 to 69 make of \<open>em\<close> when the test of
  line 64 has been evaluated in the world \<open>w\<close>: the timestamp is the next clock reading,
  value and validity are the provider's answer.
\<close>

definition revalidate :: "env \<Rightarrow> world \<Rightarrow> ExternalMetricValue \<Rightarrow> ExternalMetricValue" where
  "revalidate e w em =
     (let (val, err) = queryDatadogExternal e (length (queries w)) (ExternalMetricValue.MetricName em) (Labels em)
      in em\<lparr>Timestamp := Now_Unix e (Suc (clock_reads w)), Value := val, Valid := (err = None)\<rparr>)"

text \<open>
  The owner reference that \<open>ProcessHPAs\<close> gives every record of a policy object
  (lines 95 to 99), and the log lines that \<open>log.Errorf\<close> writes.
\<close>

definition owner_of :: "HorizontalPodAutoscaler \<Rightarrow> ObjectReference" where
  "owner_of hpa = \<lparr>ObjectReference.Name = HorizontalPodAutoscaler.Name hpa,
                   Namespace = HorizontalPodAutoscaler.Namespace hpa,
                   UID = HorizontalPodAutoscaler.UID hpa\<rparr>"

definition is_error_line :: "log_line \<Rightarrow> bool" where
  "is_error_line l = (case l of Error_EmptyList ns n \<Rightarrow> True | _ \<Rightarrow> False)"

subsection \<open>Concrete inputs\<close>

definition w0 :: world where
  "w0 = \<lparr>clock_reads = 0, queries = [], log_lines = []\<rparr>"

definition policy :: "string \<Rightarrow> MetricSpec list \<Rightarrow> HorizontalPodAutoscaler" where
  "policy uid ms = \<lparr>HorizontalPodAutoscaler.Name = ''web'', Namespace = ''default'', UID = uid,
                     Spec = \<lparr>Metrics = ms\<rparr>\<rparr>"

definition record_of :: "string \<Rightarrow> int64 \<Rightarrow> bool \<Rightarrow> ExternalMetricValue" where
  "record_of uid ts ok =
     \<lparr>ExternalMetricValue.MetricName = ''requests'', Labels = Map.empty, Timestamp = ts,
      HPA = \<lparr>ObjectReference.Name = ''web'', Namespace = ''default'', UID = uid\<rparr>,
      Value = 7, Valid = ok\<rparr>"

text \<open>
  A stub of the collaborators: durations that are whole, non-negative seconds, a clock that
  stands at \<open>t\<close>, and a provider that gives the same answer to every query.
\<close>

definition stub_env :: "int64 \<Rightarrow> int64 \<times> string option \<Rightarrow> env" where
  "stub_env t answer =
     \<lparr>Seconds = (\<lambda>d. d div 1000000000), Now_Unix = (\<lambda>k. t),
      queryDatadogExternal = (\<lambda>k name ls. answer)\<rparr>"

definition stub_processor :: "int64 \<Rightarrow> Processor" where
  "stub_processor secs = \<lparr>externalMaxAge = secs * 1000000000\<rparr>"

text \<open>
  A metric spec of the external source type with an empty selector, and one of another
  source type.
\<close>

definition external_spec :: "string \<Rightarrow> MetricSpec" where
  "external_spec name =
     \<lparr>Type = ExternalMetricSourceType,
      External = \<lparr>ExternalMetricSource.MetricName = name, MetricSelector = \<lparr>MatchLabels = Map.empty\<rparr>\<rparr>\<rparr>"

definition resource_spec :: MetricSpec where
  "resource_spec =
     \<lparr>Type = ''Resource'',
      External = \<lparr>ExternalMetricSource.MetricName = [], MetricSelector = \<lparr>MatchLabels = Map.empty\<rparr>\<rparr>\<rparr>"

section \<open>The garbage collection diff\<close>

lemma gc_uids_step_Some:
  "list s ! i = Some h \<Longrightarrow>
   gc_uids_step i s = Inr (s\<lparr>uids := (uids s)(HorizontalPodAutoscaler.UID h \<mapsto> ())\<rparr>)"
  by (simp add: gc_uids_step_def)

lemma uids_loop:
  "list s = map Some hs \<Longrightarrow> \<forall>i\<in>set is. i < length hs \<Longrightarrow>
   \<exists>m. range_loop gc_uids_step is s = Inr (s\<lparr>uids := m\<rparr>) \<and>
       dom m = dom (uids s) \<union> (\<lambda>i. HorizontalPodAutoscaler.UID (hs ! i)) ` set is"
proof (induction "is" arbitrary: s)
  case Nil
  have "s = s\<lparr>uids := uids s\<rparr>" by simp
  then show ?case by (metis range_loop.simps(1) Un_empty_right image_empty list.set(1))
next
  case (Cons i "is")
  let ?s1 = "s\<lparr>uids := (uids s)(HorizontalPodAutoscaler.UID (hs ! i) \<mapsto> ())\<rparr>"
  from Cons.prems have i: "i < length hs" and rest: "\<forall>j\<in>set is. j < length hs" by simp_all
  from Cons.prems(1) i have step: "gc_uids_step i s = Inr ?s1"
    by (simp add: gc_uids_step_Some)
  have "list ?s1 = map Some hs" using Cons.prems(1) by simp
  from Cons.IH [OF this rest] obtain m where
    m: "range_loop gc_uids_step is ?s1 = Inr (?s1\<lparr>uids := m\<rparr>)"
       "dom m = dom (uids ?s1) \<union> (\<lambda>i. HorizontalPodAutoscaler.UID (hs ! i)) ` set is"
    by blast
  have "range_loop gc_uids_step (i # is) s = Inr (s\<lparr>uids := m\<rparr>)"
    using step m(1) by simp
  moreover have "dom m = dom (uids s) \<union> (\<lambda>i. HorizontalPodAutoscaler.UID (hs ! i)) ` set (i # is)"
    using m(2) by auto
  ultimately show ?case by blast
qed

lemma deleted_loop:
  "gc_frame.emList s = ems \<Longrightarrow>
   fold gc_deleted_step is s =
     s\<lparr>deleted := deleted s @
          filter (\<lambda>em. uids s (ObjectReference.UID (HPA em)) = None) (map (nth ems) is)\<rparr>"
proof (induction "is" arbitrary: s)
  case Nil
  then show ?case by simp
next
  case (Cons i "is")
  then show ?case by (simp add: gc_deleted_step_def Let_def)
qed

lemma nth_image_upt: "(\<lambda>i. f (hs ! i)) ` set [0..<length hs] = f ` set hs"
proof -
  have "(\<lambda>i. f (hs ! i)) ` set [0..<length hs] = set (map f (map (nth hs) [0..<length hs]))"
    by (simp add: image_image)
  then show ?thesis by (simp add: map_nth)
qed

lemma gc_result:
  "\<exists>m. ComputeDeleteExternalMetrics (map Some hs) ems w =
     Inr (filter (\<lambda>em. ObjectReference.UID (HPA em) \<notin> HorizontalPodAutoscaler.UID ` set hs) ems,
          \<lparr>list = map Some hs, emList = ems, uids = m,
           deleted = filter (\<lambda>em. ObjectReference.UID (HPA em) \<notin> HorizontalPodAutoscaler.UID ` set hs) ems,
           gc_world = w\<rparr>)"
proof -
  let ?s0 = "\<lparr>list = map Some hs, emList = ems, uids = Map.empty, deleted = [], gc_world = w\<rparr>"
  have "list ?s0 = map Some hs" and "\<forall>i\<in>set [0..<length hs]. i < length hs" by simp_all
  from uids_loop [OF this] obtain m where
    m: "range_loop gc_uids_step [0..<length hs] ?s0 = Inr (?s0\<lparr>uids := m\<rparr>)"
       "dom m = HorizontalPodAutoscaler.UID ` set hs"
    by (auto simp: nth_image_upt simp del: set_upt)
  have absent: "(m k = None) = (k \<notin> HorizontalPodAutoscaler.UID ` set hs)" for k
    using m(2) by (metis domIff)
  have "ComputeDeleteExternalMetrics (map Some hs) ems w =
     Inr (filter (\<lambda>em. ObjectReference.UID (HPA em) \<notin> HorizontalPodAutoscaler.UID ` set hs) ems,
          \<lparr>list = map Some hs, emList = ems, uids = m,
           deleted = filter (\<lambda>em. ObjectReference.UID (HPA em) \<notin> HorizontalPodAutoscaler.UID ` set hs) ems,
           gc_world = w\<rparr>)"
    by (simp add: ComputeDeleteExternalMetrics_def m(1) deleted_loop map_nth absent)
  then show ?thesis by blast
qed

text \<open>
  Claim C4. For every list of live policy objects and every list of stored records,
  \<open>ComputeDeleteExternalMetrics\<close> returns, in the order of the record list, exactly the
  records whose owner uid is not the uid of any live policy object: a record of the list
  is returned if and only if its \<open>HPA.UID\<close> is absent from the uids of the policies.
\<close>

theorem gc_diff:
  "\<exists>s. ComputeDeleteExternalMetrics (map Some hpas) ems w =
     Inr (filter (\<lambda>em. ObjectReference.UID (HPA em) \<notin> HorizontalPodAutoscaler.UID ` set hpas) ems, s)"
  using gc_result [of hpas ems w] by blast

text \<open>
  With policies of uids A and B and records owned by A, B and C, exactly the record owned
  by C is returned.
\<close>

theorem gc_diff_witness:
  "\<exists>s. ComputeDeleteExternalMetrics [Some (policy ''A'' []), Some (policy ''B'' [])]
          [record_of ''A'' 5 True, record_of ''B'' 6 False, record_of ''C'' 7 True] w0 =
     Inr ([record_of ''C'' 7 True], s)"
  using gc_diff [of "[policy ''A'' [], policy ''B'' []]"
      "[record_of ''A'' 5 True, record_of ''B'' 6 False, record_of ''C'' 7 True]" w0]
  by (simp add: policy_def record_of_def)

text \<open>
  Claim C5. \<open>ComputeDeleteExternalMetrics\<close> is pure: on every list of live policy
  objects and every record list it returns and leaves both input slices and the world
  (clock reads, provider queries, log) as they were; and called again on what the first
  call left, it returns the same deletion list and leaves the same frame.
\<close>

theorem gc_pure:
  "\<exists>d s. ComputeDeleteExternalMetrics (map Some hpas) ems w = Inr (d, s) \<and>
         list s = map Some hpas \<and> gc_frame.emList s = ems \<and> gc_world s = w \<and>
         ComputeDeleteExternalMetrics (list s) (gc_frame.emList s) (gc_world s) = Inr (d, s)"
proof -
  from gc_result [of hpas ems w] obtain m where
    "ComputeDeleteExternalMetrics (map Some hpas) ems w =
       Inr (filter (\<lambda>em. ObjectReference.UID (HPA em) \<notin> HorizontalPodAutoscaler.UID ` set hpas) ems,
            \<lparr>list = map Some hpas, emList = ems, uids = m,
             deleted = filter (\<lambda>em. ObjectReference.UID (HPA em) \<notin> HorizontalPodAutoscaler.UID ` set hpas) ems,
             gc_world = w\<rparr>)"
    by blast
  then show ?thesis by simp
qed

theorem gc_pure_witness:
  "\<exists>d s. ComputeDeleteExternalMetrics [Some (policy ''A'' [])]
            [record_of ''A'' 5 True, record_of ''C'' 7 True] w0 = Inr (d, s) \<and>
         list s = [Some (policy ''A'' [])] \<and>
         gc_frame.emList s = [record_of ''A'' 5 True, record_of ''C'' 7 True] \<and> gc_world s = w0 \<and>
         ComputeDeleteExternalMetrics (list s) (gc_frame.emList s) (gc_world s) = Inr (d, s)"
  using gc_pure [of "[policy ''A'' []]" "[record_of ''A'' 5 True, record_of ''C'' 7 True]" w0]
  by simp

section \<open>The refresh pass\<close>

lemma refresh_fresh:
  "Now_Unix e (clock_reads w) - Timestamp em \<le>s M \<and> Valid em \<Longrightarrow>
   refresh e p M em (upd, w) = (upd, w\<lparr>clock_reads := Suc (clock_reads w)\<rparr>)"
  by (simp add: refresh_def Now_def)

lemma refresh_stale:
  "\<not> (Now_Unix e (clock_reads w) - Timestamp em \<le>s M \<and> Valid em) \<Longrightarrow>
   refresh e p M em (upd, w) =
     (upd @ [revalidate e w em],
      w\<lparr>clock_reads := Suc (Suc (clock_reads w)),
        queries := queries w @ [(ExternalMetricValue.MetricName em, Labels em)],
        log_lines := log_lines w @
          (case snd (queryDatadogExternal e (length (queries w)) (ExternalMetricValue.MetricName em) (Labels em)) of
             Some msg \<Rightarrow> [Debug_CouldNotFetch (ExternalMetricValue.MetricName em) msg]
           | None \<Rightarrow> []) @ [Debug_Updated (revalidate e w em)]\<rparr>)"
  by (auto simp: refresh_def Now_def validateExternalMetric_def query_def Debugf_def revalidate_def
      Let_def split: prod.splits option.splits)

lemma update_loop_Suc:
  "update_loop e p M (Suc n) s = update_step e p M n (update_loop e p M n s)"
  by (simp add: update_loop_def)

lemma update_step_emList:
  "update_frame.emList (update_step e p M i s) = update_frame.emList s"
  by (simp add: update_step_def split: prod.splits)

lemma update_loop_emList:
  "update_frame.emList (update_loop e p M n s) = update_frame.emList s"
proof (induction n)
  case 0
  show ?case by (simp add: update_loop_def)
next
  case (Suc n)
  then show ?case by (simp add: update_loop_Suc update_step_emList)
qed

lemma pass_frame_emList: "update_frame.emList (pass_frame e p ems w n) = ems"
  by (simp add: pass_frame_def update_loop_emList)

lemma pass_frame_0: "pass_frame e p ems w 0 = \<lparr>emList = ems, updated = [], up_world = w\<rparr>"
  by (simp add: pass_frame_def update_loop_def)

lemma pass_frame_Suc:
  "pass_frame e p ems w (Suc i) =
     (let s = pass_frame e p ems w i;
          r = refresh e p (Seconds e (externalMaxAge p)) (ems ! i) (updated s, up_world s)
      in s\<lparr>updated := fst r, up_world := snd r\<rparr>)"
  using pass_frame_emList [of e p ems w i]
  by (simp add: pass_frame_def update_loop_Suc update_step_def Let_def split: prod.splits)

lemma pass_frame_fresh:
  "fresh_at e p ems w i \<Longrightarrow>
   pass_frame e p ems w (Suc i) =
     (pass_frame e p ems w i)\<lparr>up_world :=
        (up_world (pass_frame e p ems w i))\<lparr>clock_reads := Suc (clock_reads (up_world (pass_frame e p ems w i)))\<rparr>\<rparr>"
  by (simp add: pass_frame_Suc Let_def fresh_at_def refresh_fresh)

lemma pass_frame_stale:
  "\<not> fresh_at e p ems w i \<Longrightarrow>
   updated (pass_frame e p ems w (Suc i)) =
     updated (pass_frame e p ems w i) @ [revalidate e (up_world (pass_frame e p ems w i)) (ems ! i)] \<and>
   queries (up_world (pass_frame e p ems w (Suc i))) =
     queries (up_world (pass_frame e p ems w i)) @ [(ExternalMetricValue.MetricName (ems ! i), Labels (ems ! i))] \<and>
   clock_reads (up_world (pass_frame e p ems w (Suc i))) =
     Suc (Suc (clock_reads (up_world (pass_frame e p ems w i))))"
  by (simp add: pass_frame_Suc Let_def fresh_at_def refresh_stale)

lemma UpdateExternalMetrics_pass:
  "UpdateExternalMetrics e p ems w =
     (updated (pass_frame e p ems w (length ems)), pass_frame e p ems w (length ems))"
  by (simp add: UpdateExternalMetrics_def pass_frame_def Let_def)

lemmas stub_run =
  UpdateExternalMetrics_def update_loop_def update_step_def refresh_def Now_def
  validateExternalMetric_def query_def Debugf_def stub_env_def stub_processor_def record_of_def
  w0_def Let_def word_sle_eq upt_rec

text \<open>
  Claim C10. \<open>UpdateExternalMetrics\<close> never writes to the slice it is given: for every
  input list, the input slice holds the same records after the call as before. The
  refreshed value, validity and timestamp are in the records of the returned list only.
\<close>

theorem update_leaves_input:
  "update_frame.emList (snd (UpdateExternalMetrics e p ems w)) = ems"
  by (simp add: UpdateExternalMetrics_pass pass_frame_emList)

theorem update_leaves_input_witness:
  "update_frame.emList (snd (UpdateExternalMetrics (stub_env 1000 (42, None)) (stub_processor 30)
      [record_of ''A'' 990 True, record_of ''B'' 900 True] w0))
     = [record_of ''A'' 990 True, record_of ''B'' 900 True] \<and>
   fst (UpdateExternalMetrics (stub_env 1000 (42, None)) (stub_processor 30)
      [record_of ''A'' 990 True, record_of ''B'' 900 True] w0)
     = [(record_of ''B'' 900 True)\<lparr>Timestamp := 1000, Value := 42\<rparr>]"
  using update_leaves_input [of "stub_env 1000 (42, None)" "stub_processor 30"
      "[record_of ''A'' 990 True, record_of ''B'' 900 True]" w0]
  by (simp add: stub_run)

section \<open>The pass, iteration by iteration\<close>

lemma pass_frame_step_cases:
  "(fresh_at e p ems w i \<and>
      updated (pass_frame e p ems w (Suc i)) = updated (pass_frame e p ems w i) \<and>
      queries (up_world (pass_frame e p ems w (Suc i))) = queries (up_world (pass_frame e p ems w i)) \<and>
      log_lines (up_world (pass_frame e p ems w (Suc i))) = log_lines (up_world (pass_frame e p ems w i)) \<and>
      clock_reads (up_world (pass_frame e p ems w (Suc i))) = Suc (clock_reads (up_world (pass_frame e p ems w i))))
   \<or> (\<not> fresh_at e p ems w i \<and>
      updated (pass_frame e p ems w (Suc i)) =
        updated (pass_frame e p ems w i) @ [revalidate e (up_world (pass_frame e p ems w i)) (ems ! i)] \<and>
      queries (up_world (pass_frame e p ems w (Suc i))) =
        queries (up_world (pass_frame e p ems w i)) @ [(ExternalMetricValue.MetricName (ems ! i), Labels (ems ! i))] \<and>
      clock_reads (up_world (pass_frame e p ems w (Suc i))) =
        Suc (Suc (clock_reads (up_world (pass_frame e p ems w i)))))"
proof (cases "fresh_at e p ems w i")
  case True
  then show ?thesis by (simp add: pass_frame_fresh)
next
  case False
  then show ?thesis using pass_frame_stale [of e p ems w i] by simp
qed

lemma updated_char:
  "updated (pass_frame e p ems w n) =
     map (\<lambda>i. revalidate e (up_world (pass_frame e p ems w i)) (ems ! i))
       (filter (\<lambda>i. \<not> fresh_at e p ems w i) [0..<n])"
proof (induction n)
  case 0
  show ?case by (simp add: pass_frame_0)
next
  case (Suc n)
  then show ?case using pass_frame_step_cases [of e p ems w n] by auto
qed

lemma queries_char:
  "queries (up_world (pass_frame e p ems w n)) =
     queries w @ map (\<lambda>i. (ExternalMetricValue.MetricName (ems ! i), Labels (ems ! i)))
       (filter (\<lambda>i. \<not> fresh_at e p ems w i) [0..<n])"
proof (induction n)
  case 0
  show ?case by (simp add: pass_frame_0)
next
  case (Suc n)
  then show ?case using pass_frame_step_cases [of e p ems w n] by auto
qed

lemma clock_reads_grow:
  "clock_reads w \<le> clock_reads (up_world (pass_frame e p ems w n))"
proof (induction n)
  case 0
  show ?case by (simp add: pass_frame_0)
next
  case (Suc n)
  then show ?case using pass_frame_step_cases [of e p ems w n] by auto
qed

lemma updated_grows:
  "\<exists>rest. updated (pass_frame e p ems w (n + k)) = updated (pass_frame e p ems w n) @ rest"
proof (induction k)
  case 0
  show ?case by simp
next
  case (Suc k)
  then show ?case using pass_frame_step_cases [of e p ems w "n + k"] by auto
qed

lemma revalidate_key:
  "ExternalMetricValue.MetricName (revalidate e v em) = ExternalMetricValue.MetricName em \<and>
   Labels (revalidate e v em) = Labels em"
  by (simp add: revalidate_def split: prod.splits)

lemma pass_rest:
  "\<exists>rest. updated (pass_frame e p ems w (n + k)) = updated (pass_frame e p ems w n) @ rest \<and>
     queries (up_world (pass_frame e p ems w (n + k))) =
       queries (up_world (pass_frame e p ems w n)) @
       map (\<lambda>r. (ExternalMetricValue.MetricName r, Labels r)) rest"
proof (induction k)
  case 0
  show ?case by simp
next
  case (Suc k)
  then obtain rest where
    r: "updated (pass_frame e p ems w (n + k)) = updated (pass_frame e p ems w n) @ rest"
       "queries (up_world (pass_frame e p ems w (n + k))) =
          queries (up_world (pass_frame e p ems w n)) @
          map (\<lambda>r. (ExternalMetricValue.MetricName r, Labels r)) rest"
    by blast
  show ?case
  proof (cases "fresh_at e p ems w (n + k)")
    case True
    with r show ?thesis using pass_frame_step_cases [of e p ems w "n + k"] by auto
  next
    case False
    let ?new = "revalidate e (up_world (pass_frame e p ems w (n + k))) (ems ! (n + k))"
    from False pass_frame_stale [of e p ems w "n + k"] r
    have "updated (pass_frame e p ems w (n + Suc k)) =
        updated (pass_frame e p ems w n) @ (rest @ [?new])"
      and "queries (up_world (pass_frame e p ems w (n + Suc k))) =
        queries (up_world (pass_frame e p ems w n)) @
        map (\<lambda>r. (ExternalMetricValue.MetricName r, Labels r)) (rest @ [?new])"
      by (simp_all add: revalidate_key)
    then show ?thesis by blast
  qed
qed

lemma result_rest:
  assumes "n \<le> length ems"
  shows "\<exists>rest. fst (UpdateExternalMetrics e p ems w) = updated (pass_frame e p ems w n) @ rest \<and>
     queries (up_world (snd (UpdateExternalMetrics e p ems w))) =
       queries (up_world (pass_frame e p ems w n)) @
       map (\<lambda>r. (ExternalMetricValue.MetricName r, Labels r)) rest"
proof -
  from assms obtain k where k: "length ems = n + k"
    using le_Suc_ex by blast
  from pass_rest [of e p ems w n k] show ?thesis
    unfolding UpdateExternalMetrics_pass k by simp
qed

lemma clock_reads_steps:
  "clock_reads (up_world (pass_frame e p ems w n))
     \<le> clock_reads (up_world (pass_frame e p ems w (n + k)))"
proof (induction k)
  case 0
  show ?case by simp
next
  case (Suc k)
  then show ?case using pass_frame_step_cases [of e p ems w "n + k"] by auto
qed

lemma sint_sub_nonneg:
  fixes a b :: int64
  assumes "0 \<le> sint a" and "0 \<le> sint b"
  shows "sint (a - b) = sint a - sint b"
proof -
  have "sint a < 2 ^ 63" and "sint b < 2 ^ 63"
    using sint_lt [of a] sint_lt [of b] by simp_all
  with assms have "- (2 ^ 63) \<le> sint a - sint b" and "sint a - sint b < 2 ^ 63" by simp_all
  then have "signed_take_bit 63 (sint a - sint b) = sint a - sint b"
    by (simp add: signed_take_bit_int_eq_self)
  then show ?thesis by (simp add: sint_word_ariths)
qed

lemma sint_succ:
  fixes m :: int64
  assumes "sint m < 2 ^ 63 - 1"
  shows "sint (m + 1) = sint m + 1"
proof -
  have "- (2 ^ 63) \<le> sint m" using sint_ge [of m] by simp
  with assms have "- (2 ^ 63) \<le> sint m + 1" and "sint m + 1 < 2 ^ 63" by simp_all
  then have "signed_take_bit 63 (sint m + 1) = sint m + 1"
    by (simp add: signed_take_bit_int_eq_self)
  then show ?thesis by (simp add: sint_word_ariths)
qed

lemma pass_frame_stale_log:
  "\<not> fresh_at e p ems w i \<Longrightarrow>
   queryDatadogExternal e (length (queries (up_world (pass_frame e p ems w i))))
      (ExternalMetricValue.MetricName (ems ! i)) (Labels (ems ! i)) = (val, Some msg) \<Longrightarrow>
   Debug_CouldNotFetch (ExternalMetricValue.MetricName (ems ! i)) msg
     \<in> set (log_lines (up_world (pass_frame e p ems w (Suc i))))"
  by (simp add: pass_frame_Suc Let_def fresh_at_def refresh_stale)

lemma skipped_iff:
  "(queries (up_world (pass_frame e p ems w (Suc i))) = queries (up_world (pass_frame e p ems w i)) \<and>
    updated (pass_frame e p ems w (Suc i)) = updated (pass_frame e p ems w i) \<and>
    update_frame.emList (pass_frame e p ems w (Suc i)) = ems)
   = fresh_at e p ems w i"
  using pass_frame_step_cases [of e p ems w i] by (auto simp: pass_frame_emList)

text \<open>
  Claim C1. \<open>UpdateExternalMetrics\<close> returns the list of the frame that its loop leaves
  after \<open>length ems\<close> iterations. For every record of the list passed to it, iteration
  \<open>i\<close> skips the record (no provider query, nothing appended to the returned list, the
  input slice as it was) if and only if the record is valid and
  \<open>now - Timestamp \<le> maxAge\<close>, where \<open>now\<close> is the clock reading of that iteration and
  the subtraction and the comparison are those of \<open>int64\<close>; what the call returns and the
  queries it has made are those of the frame after iteration \<open>i\<close>, followed by the records
  and the queries of the later iterations. For timestamps since the epoch (both
  non-negative) the subtraction does not wrap and the test is the one on the integers.
  With \<open>maxAge = M\<close>, a valid record with \<open>Timestamp = now - M\<close> is skipped and one with
  \<open>Timestamp = now - M - 1\<close> is not; \<open>M + 1\<close> must not wrap for the latter, and
  \<open>maxAge\<close>, a number of seconds of a duration in nanoseconds, is far below the largest
  \<open>int64\<close>.
\<close>

theorem refresh_skips_iff_fresh:
  assumes "i < length ems"
  shows "UpdateExternalMetrics e p ems w =
           (updated (pass_frame e p ems w (length ems)), pass_frame e p ems w (length ems)) \<and>
         (let M = Seconds e (externalMaxAge p);
              s = pass_frame e p ems w i;
              s' = pass_frame e p ems w (Suc i);
              now = Now_Unix e (clock_reads (up_world s));
              em = ems ! i;
              skipped = (queries (up_world s') = queries (up_world s) \<and> updated s' = updated s \<and>
                         update_frame.emList s' = ems)
          in (skipped \<longleftrightarrow> Valid em \<and> sint (now - Timestamp em) \<le> sint M) \<and>
             (\<exists>rest. fst (UpdateExternalMetrics e p ems w) = updated s' @ rest \<and>
                queries (up_world (snd (UpdateExternalMetrics e p ems w))) =
                  queries (up_world s') @ map (\<lambda>r. (ExternalMetricValue.MetricName r, Labels r)) rest) \<and>
             (\<not> skipped \<longrightarrow>
                updated s' = updated s @ [revalidate e (up_world s) em] \<and>
                queries (up_world s') =
                  queries (up_world s) @ [(ExternalMetricValue.MetricName em, Labels em)]) \<and>
             (0 \<le> sint now \<and> 0 \<le> sint (Timestamp em) \<longrightarrow>
                (skipped \<longleftrightarrow> Valid em \<and> sint now - sint (Timestamp em) \<le> sint M)) \<and>
             (Valid em \<and> Timestamp em = now - M \<longrightarrow> skipped) \<and>
             (Valid em \<and> Timestamp em = now - M - 1 \<and> sint M < 2 ^ 63 - 1 \<longrightarrow> \<not> skipped))"
proof -
  let ?M = "Seconds e (externalMaxAge p)"
  let ?now = "Now_Unix e (clock_reads (up_world (pass_frame e p ems w i)))"
  let ?em = "ems ! i"
  have fresh: "fresh_at e p ems w i \<longleftrightarrow> Valid ?em \<and> sint (?now - Timestamp ?em) \<le> sint ?M"
    by (auto simp: fresh_at_def word_sle_eq)
  have plain: "sint (?now - Timestamp ?em) = sint ?now - sint (Timestamp ?em)"
    if "0 \<le> sint ?now \<and> 0 \<le> sint (Timestamp ?em)"
    using that by (simp add: sint_sub_nonneg)
  have at_bound: "fresh_at e p ems w i" if "Valid ?em \<and> Timestamp ?em = ?now - ?M"
    using that by (simp add: fresh)
  have past_bound: "\<not> fresh_at e p ems w i"
    if "Valid ?em \<and> Timestamp ?em = ?now - ?M - 1 \<and> sint ?M < 2 ^ 63 - 1"
  proof -
    from that have "?now - Timestamp ?em = ?M + 1" by simp
    moreover from that have "sint (?M + 1) = sint ?M + 1" by (simp add: sint_succ)
    ultimately show ?thesis by (simp add: fresh)
  qed
  from assms have "Suc i \<le> length ems" by simp
  note rest = result_rest [OF this, of e p w]
  have stale: "updated (pass_frame e p ems w (Suc i)) =
        updated (pass_frame e p ems w i) @ [revalidate e (up_world (pass_frame e p ems w i)) ?em] \<and>
      queries (up_world (pass_frame e p ems w (Suc i))) =
        queries (up_world (pass_frame e p ems w i)) @ [(ExternalMetricValue.MetricName ?em, Labels ?em)]"
    if "\<not> fresh_at e p ems w i"
    using pass_frame_stale [OF that] by simp
  have body: "let M = Seconds e (externalMaxAge p);
              s = pass_frame e p ems w i;
              s' = pass_frame e p ems w (Suc i);
              now = Now_Unix e (clock_reads (up_world s));
              em = ems ! i;
              skipped = (queries (up_world s') = queries (up_world s) \<and> updated s' = updated s \<and>
                         update_frame.emList s' = ems)
          in (skipped \<longleftrightarrow> Valid em \<and> sint (now - Timestamp em) \<le> sint M) \<and>
             (\<exists>rest. fst (UpdateExternalMetrics e p ems w) = updated s' @ rest \<and>
                queries (up_world (snd (UpdateExternalMetrics e p ems w))) =
                  queries (up_world s') @ map (\<lambda>r. (ExternalMetricValue.MetricName r, Labels r)) rest) \<and>
             (\<not> skipped \<longrightarrow>
                updated s' = updated s @ [revalidate e (up_world s) em] \<and>
                queries (up_world s') =
                  queries (up_world s) @ [(ExternalMetricValue.MetricName em, Labels em)]) \<and>
             (0 \<le> sint now \<and> 0 \<le> sint (Timestamp em) \<longrightarrow>
                (skipped \<longleftrightarrow> Valid em \<and> sint now - sint (Timestamp em) \<le> sint M)) \<and>
             (Valid em \<and> Timestamp em = now - M \<longrightarrow> skipped) \<and>
             (Valid em \<and> Timestamp em = now - M - 1 \<and> sint M < 2 ^ 63 - 1 \<longrightarrow> \<not> skipped)"
    unfolding Let_def skipped_iff
    using fresh plain at_bound past_bound rest stale by auto
  from UpdateExternalMetrics_pass [of e p ems w] body show ?thesis by blast
qed

theorem refresh_skips_iff_fresh_witness:
  "fst (UpdateExternalMetrics (stub_env 1000 (42, None)) (stub_processor 30)
      [record_of ''A'' 970 True, record_of ''B'' 969 True] w0)
     = [(record_of ''B'' 969 True)\<lparr>Timestamp := 1000, Value := 42\<rparr>] \<and>
   queries (up_world (snd (UpdateExternalMetrics (stub_env 1000 (42, None)) (stub_processor 30)
      [record_of ''A'' 970 True, record_of ''B'' 969 True] w0)))
     = [(''requests'', Map.empty)] \<and>
   updated (pass_frame (stub_env 1000 (42, None)) (stub_processor 30)
      [record_of ''A'' 970 True, record_of ''B'' 969 True] w0 (Suc 0)) = [] \<and>
   queries (up_world (pass_frame (stub_env 1000 (42, None)) (stub_processor 30)
      [record_of ''A'' 970 True, record_of ''B'' 969 True] w0 (Suc 0))) = [] \<and>
   updated (pass_frame (stub_env 1000 (42, None)) (stub_processor 30)
      [record_of ''A'' 970 True, record_of ''B'' 969 True] w0 (Suc (Suc 0)))
     = [(record_of ''B'' 969 True)\<lparr>Timestamp := 1000, Value := 42\<rparr>]"
proof -
  have first: "0 < length [record_of ''A'' 970 True, record_of ''B'' 969 True]"
    and second: "Suc 0 < length [record_of ''A'' 970 True, record_of ''B'' 969 True]"
    by simp_all
  from refresh_skips_iff_fresh [OF first, of "stub_env 1000 (42, None)" "stub_processor 30" w0]
    refresh_skips_iff_fresh [OF second, of "stub_env 1000 (42, None)" "stub_processor 30" w0]
  show ?thesis by (simp add: stub_run pass_frame_def)
qed

text \<open>
  Claim C2 as it is stated fails: with a maximum age of zero, a valid record whose
  timestamp is the clock reading (refreshed within the same second) passes the test of
  line 64, whose comparison is \<open>\<le>\<close>; it is skipped and the provider is not queried.
\<close>

theorem zero_max_age_counterexample:
  "Seconds (stub_env 1000 (42, None)) (externalMaxAge (stub_processor 0)) = 0 \<and>
   fst (UpdateExternalMetrics (stub_env 1000 (42, None)) (stub_processor 0)
          [record_of ''A'' 1000 True] w0) = [] \<and>
   queries (up_world (snd (UpdateExternalMetrics (stub_env 1000 (42, None)) (stub_processor 0)
          [record_of ''A'' 1000 True] w0))) = []"
  by (simp add: stub_run)

text \<open>
  Claim C2, amended. When the maximum age is zero, iteration \<open>i\<close> of the pass of
  \<open>UpdateExternalMetrics\<close> revalidates the record (queries the provider for it and
  appends the refreshed copy, which is then in the list the call returns) if and only if
  the record is invalid or \<open>now - Timestamp\<close>, computed in \<open>int64\<close>, is positive;
  otherwise it skips the record. So every invalid record is revalidated, and a valid
  record with \<open>Timestamp = now\<close> is skipped. For timestamps since the epoch (a
  non-negative clock reading and a non-negative timestamp), every record with a timestamp
  earlier than the clock reading is revalidated, and a valid record with a timestamp
  equal to the clock reading or later is skipped.
\<close>

theorem zero_max_age:
  assumes "Seconds e (externalMaxAge p) = 0" and "i < length ems"
  shows "UpdateExternalMetrics e p ems w =
           (updated (pass_frame e p ems w (length ems)), pass_frame e p ems w (length ems)) \<and>
         (let s = pass_frame e p ems w i;
              s' = pass_frame e p ems w (Suc i);
              now = Now_Unix e (clock_reads (up_world s));
              em = ems ! i;
              revalidated =
                (updated s' = updated s @ [revalidate e (up_world s) em] \<and>
                 queries (up_world s') =
                   queries (up_world s) @ [(ExternalMetricValue.MetricName em, Labels em)] \<and>
                 (\<exists>rest. fst (UpdateExternalMetrics e p ems w) =
                    updated s @ [revalidate e (up_world s) em] @ rest));
              skipped = (updated s' = updated s \<and> queries (up_world s') = queries (up_world s))
          in (revalidated \<longleftrightarrow> \<not> (Valid em \<and> sint (now - Timestamp em) \<le> 0)) \<and>
             (skipped \<longleftrightarrow> Valid em \<and> sint (now - Timestamp em) \<le> 0) \<and>
             (\<not> Valid em \<longrightarrow> revalidated) \<and>
             (Valid em \<and> Timestamp em = now \<longrightarrow> skipped) \<and>
             (0 \<le> sint (Timestamp em) \<and> sint (Timestamp em) < sint now \<longrightarrow> revalidated) \<and>
             (Valid em \<and> 0 \<le> sint now \<and> sint now \<le> sint (Timestamp em) \<longrightarrow> skipped))"
proof -
  let ?s = "pass_frame e p ems w i"
  let ?s' = "pass_frame e p ems w (Suc i)"
  let ?now = "Now_Unix e (clock_reads (up_world ?s))"
  let ?em = "ems ! i"
  let ?new = "revalidate e (up_world ?s) ?em"
  have fresh: "fresh_at e p ems w i \<longleftrightarrow> Valid ?em \<and> sint (?now - Timestamp ?em) \<le> 0"
    using assms(1) by (auto simp: fresh_at_def word_sle_eq)
  from assms(2) have "Suc i \<le> length ems" by simp
  from result_rest [OF this, of e p w] obtain rest where
    rest: "fst (UpdateExternalMetrics e p ems w) = updated ?s' @ rest"
    by blast
  have reval:
    "(updated ?s' = updated ?s @ [?new] \<and>
      queries (up_world ?s') =
        queries (up_world ?s) @ [(ExternalMetricValue.MetricName ?em, Labels ?em)] \<and>
      (\<exists>rest. fst (UpdateExternalMetrics e p ems w) = updated ?s @ [?new] @ rest))
     = (\<not> fresh_at e p ems w i)"
  proof (cases "fresh_at e p ems w i")
    case True
    then show ?thesis using pass_frame_step_cases [of e p ems w i] by auto
  next
    case False
    from pass_frame_stale [OF False] have
      u: "updated ?s' = updated ?s @ [?new]"
      and q: "queries (up_world ?s') =
        queries (up_world ?s) @ [(ExternalMetricValue.MetricName ?em, Labels ?em)]"
      by simp_all
    from rest u have "fst (UpdateExternalMetrics e p ems w) = updated ?s @ [?new] @ rest"
      by simp
    with False u q show ?thesis by blast
  qed
  have skip: "(updated ?s' = updated ?s \<and> queries (up_world ?s') = queries (up_world ?s))
     = fresh_at e p ems w i"
    using pass_frame_step_cases [of e p ems w i] by auto
  have older: "0 < sint (?now - Timestamp ?em)"
    if "0 \<le> sint (Timestamp ?em) \<and> sint (Timestamp ?em) < sint ?now"
    using that by (simp add: sint_sub_nonneg)
  have ahead: "sint (?now - Timestamp ?em) \<le> 0"
    if "0 \<le> sint ?now \<and> sint ?now \<le> sint (Timestamp ?em)"
    using that by (simp add: sint_sub_nonneg)
  have body: "let s = pass_frame e p ems w i;
              s' = pass_frame e p ems w (Suc i);
              now = Now_Unix e (clock_reads (up_world s));
              em = ems ! i;
              revalidated =
                (updated s' = updated s @ [revalidate e (up_world s) em] \<and>
                 queries (up_world s') =
                   queries (up_world s) @ [(ExternalMetricValue.MetricName em, Labels em)] \<and>
                 (\<exists>rest. fst (UpdateExternalMetrics e p ems w) =
                    updated s @ [revalidate e (up_world s) em] @ rest));
              skipped = (updated s' = updated s \<and> queries (up_world s') = queries (up_world s))
          in (revalidated \<longleftrightarrow> \<not> (Valid em \<and> sint (now - Timestamp em) \<le> 0)) \<and>
             (skipped \<longleftrightarrow> Valid em \<and> sint (now - Timestamp em) \<le> 0) \<and>
             (\<not> Valid em \<longrightarrow> revalidated) \<and>
             (Valid em \<and> Timestamp em = now \<longrightarrow> skipped) \<and>
             (0 \<le> sint (Timestamp em) \<and> sint (Timestamp em) < sint now \<longrightarrow> revalidated) \<and>
             (Valid em \<and> 0 \<le> sint now \<and> sint now \<le> sint (Timestamp em) \<longrightarrow> skipped)"
    unfolding Let_def reval skip using fresh older ahead by auto
  from UpdateExternalMetrics_pass [of e p ems w] body show ?thesis by blast
qed

theorem zero_max_age_witness:
  "fst (UpdateExternalMetrics (stub_env 1000 (42, None)) (stub_processor 0)
      [record_of ''A'' 999 True, record_of ''B'' 1000 True, record_of ''C'' 1001 True] w0)
     = [(record_of ''A'' 999 True)\<lparr>Timestamp := 1000, Value := 42\<rparr>] \<and>
   queries (up_world (snd (UpdateExternalMetrics (stub_env 1000 (42, None)) (stub_processor 0)
      [record_of ''A'' 999 True, record_of ''B'' 1000 True, record_of ''C'' 1001 True] w0)))
     = [(''requests'', Map.empty)] \<and>
   updated (pass_frame (stub_env 1000 (42, None)) (stub_processor 0)
      [record_of ''A'' 999 True, record_of ''B'' 1000 True, record_of ''C'' 1001 True] w0 (Suc 0))
     = [(record_of ''A'' 999 True)\<lparr>Timestamp := 1000, Value := 42\<rparr>]"
proof -
  have zero: "Seconds (stub_env 1000 (42, None)) (externalMaxAge (stub_processor 0)) = 0"
    by (simp add: stub_env_def stub_processor_def)
  have first: "0 < length [record_of ''A'' 999 True, record_of ''B'' 1000 True, record_of ''C'' 1001 True]"
    and second: "Suc 0 < length [record_of ''A'' 999 True, record_of ''B'' 1000 True, record_of ''C'' 1001 True]"
    and third: "Suc (Suc 0) < length [record_of ''A'' 999 True, record_of ''B'' 1000 True, record_of ''C'' 1001 True]"
    by simp_all
  from zero_max_age [OF zero first, of w0] zero_max_age [OF zero second, of w0]
    zero_max_age [OF zero third, of w0]
  show ?thesis by (simp add: stub_run pass_frame_def)
qed

text \<open>
  Claim C3. For every record that the pass finds not fresh, the copy appended to the
  returned list has \<open>Value\<close> and \<open>Valid\<close> overwritten with the result of the provider
  query and \<open>Timestamp\<close> set to the clock reading of line 68, all other fields as they
  were. When the provider fails, the copy is invalid, its timestamp is that clock reading
  all the same, and the error is written to the debug log. \<open>UpdateExternalMetrics\<close>
  returns a list of records and nothing else: the refreshed copy is in the list it returns,
  and no error reaches the caller.
\<close>

theorem revalidation_overwrites:
  assumes "i < length ems" and "\<not> fresh_at e p ems w i"
  shows "let s = pass_frame e p ems w i;
             s' = pass_frame e p ems w (Suc i);
             cur = up_world s;
             em = ems ! i;
             (val, err) = queryDatadogExternal e (length (queries cur))
                            (ExternalMetricValue.MetricName em) (Labels em);
             em' = em\<lparr>Timestamp := Now_Unix e (Suc (clock_reads cur)), Value := val,
                       Valid := (err = None)\<rparr>
         in updated s' = updated s @ [em'] \<and>
            queries (up_world s') = queries cur @ [(ExternalMetricValue.MetricName em, Labels em)] \<and>
            (\<forall>msg. err = Some msg \<longrightarrow>
               \<not> Valid em' \<and> Timestamp em' = Now_Unix e (Suc (clock_reads cur)) \<and>
               Debug_CouldNotFetch (ExternalMetricValue.MetricName em) msg \<in> set (log_lines (up_world s'))) \<and>
            (\<exists>rest. fst (UpdateExternalMetrics e p ems w) = updated s @ [em'] @ rest)"
proof -
  let ?s = "pass_frame e p ems w i"
  let ?s' = "pass_frame e p ems w (Suc i)"
  obtain val err where q:
    "queryDatadogExternal e (length (queries (up_world ?s)))
       (ExternalMetricValue.MetricName (ems ! i)) (Labels (ems ! i)) = (val, err)"
    by (cases "queryDatadogExternal e (length (queries (up_world ?s)))
       (ExternalMetricValue.MetricName (ems ! i)) (Labels (ems ! i))")
  let ?em' = "(ems ! i)\<lparr>Timestamp := Now_Unix e (Suc (clock_reads (up_world ?s))), Value := val,
                       Valid := (err = None)\<rparr>"
  have rv: "revalidate e (up_world ?s) (ems ! i) = ?em'"
    by (simp add: revalidate_def q)
  from pass_frame_stale [OF assms(2)] rv
  have upd: "updated ?s' = updated ?s @ [?em']"
    and qs: "queries (up_world ?s') =
      queries (up_world ?s) @ [(ExternalMetricValue.MetricName (ems ! i), Labels (ems ! i))]"
    by simp_all
  have logged: "Debug_CouldNotFetch (ExternalMetricValue.MetricName (ems ! i)) msg
      \<in> set (log_lines (up_world ?s'))" if "err = Some msg" for msg
    using pass_frame_stale_log [OF assms(2)] q that by simp
  from assms(1) obtain k where k: "length ems = Suc i + k"
    using le_Suc_ex [of "Suc i" "length ems"] by auto
  from updated_grows [of e p ems w "Suc i" k]
  obtain rest where "updated (pass_frame e p ems w (length ems)) = updated ?s' @ rest"
    unfolding k by blast
  with upd have out: "\<exists>rest. fst (UpdateExternalMetrics e p ems w) = updated ?s @ [?em'] @ rest"
    by (simp add: UpdateExternalMetrics_pass)
  show ?thesis
    unfolding Let_def q using upd qs logged out by simp
qed

theorem revalidation_overwrites_witness:
  "\<not> fresh_at (stub_env 1000 (0, Some ''timeout'')) (stub_processor 30) [record_of ''A'' 990 False] w0 0 \<and>
   fst (UpdateExternalMetrics (stub_env 1000 (0, Some ''timeout'')) (stub_processor 30)
          [record_of ''A'' 990 False] w0)
     = [(record_of ''A'' 990 False)\<lparr>Timestamp := 1000, Value := 0\<rparr>] \<and>
   log_lines (up_world (snd (UpdateExternalMetrics (stub_env 1000 (0, Some ''timeout''))
          (stub_processor 30) [record_of ''A'' 990 False] w0)))
     = [Debug_CouldNotFetch ''requests'' ''timeout'',
        Debug_Updated ((record_of ''A'' 990 False)\<lparr>Timestamp := 1000, Value := 0\<rparr>)]"
proof -
  have inside: "0 < length [record_of ''A'' 990 False]" by simp
  have stale: "\<not> fresh_at (stub_env 1000 (0, Some ''timeout'')) (stub_processor 30)
      [record_of ''A'' 990 False] w0 0"
    by (simp add: fresh_at_def record_of_def)
  from revalidation_overwrites [OF inside stale]
  show ?thesis by (simp add: stub_run pass_frame_def fresh_at_def)
qed

text \<open>
  Claim C6. For every input list, the list that \<open>UpdateExternalMetrics\<close> returns is made
  of the refreshed copies of exactly the records that were not fresh at their iteration,
  in the order of the input list; the provider was queried during the pass for these
  records, once each, in the same order, and for no other record.
\<close>

theorem returned_are_revalidated:
  "fst (UpdateExternalMetrics e p ems w) =
     map (\<lambda>i. revalidate e (up_world (pass_frame e p ems w i)) (ems ! i))
       (filter (\<lambda>i. \<not> fresh_at e p ems w i) [0..<length ems]) \<and>
   map (\<lambda>em. (ExternalMetricValue.MetricName em, Labels em, HPA em))
       (fst (UpdateExternalMetrics e p ems w)) =
     map (\<lambda>i. (ExternalMetricValue.MetricName (ems ! i), Labels (ems ! i), HPA (ems ! i)))
       (filter (\<lambda>i. \<not> fresh_at e p ems w i) [0..<length ems]) \<and>
   queries (up_world (snd (UpdateExternalMetrics e p ems w))) =
     queries w @ map (\<lambda>i. (ExternalMetricValue.MetricName (ems ! i), Labels (ems ! i)))
       (filter (\<lambda>i. \<not> fresh_at e p ems w i) [0..<length ems])"
proof -
  have keep: "(ExternalMetricValue.MetricName (revalidate e v em), Labels (revalidate e v em),
        HPA (revalidate e v em)) = (ExternalMetricValue.MetricName em, Labels em, HPA em)" for v em
    by (simp add: revalidate_def split: prod.splits)
  have one: "fst (UpdateExternalMetrics e p ems w) =
     map (\<lambda>i. revalidate e (up_world (pass_frame e p ems w i)) (ems ! i))
       (filter (\<lambda>i. \<not> fresh_at e p ems w i) [0..<length ems])"
    by (simp add: UpdateExternalMetrics_pass updated_char)
  have two: "map (\<lambda>em. (ExternalMetricValue.MetricName em, Labels em, HPA em))
       (fst (UpdateExternalMetrics e p ems w)) =
     map (\<lambda>i. (ExternalMetricValue.MetricName (ems ! i), Labels (ems ! i), HPA (ems ! i)))
       (filter (\<lambda>i. \<not> fresh_at e p ems w i) [0..<length ems])"
    unfolding one by (simp add: keep o_def)
  have three: "queries (up_world (snd (UpdateExternalMetrics e p ems w))) =
     queries w @ map (\<lambda>i. (ExternalMetricValue.MetricName (ems ! i), Labels (ems ! i)))
       (filter (\<lambda>i. \<not> fresh_at e p ems w i) [0..<length ems])"
    by (simp add: UpdateExternalMetrics_pass queries_char)
  from one two three show ?thesis by blast
qed

theorem returned_are_revalidated_witness:
  "fst (UpdateExternalMetrics (stub_env 1000 (42, None)) (stub_processor 30)
      [record_of ''A'' 900 True, record_of ''B'' 990 True, record_of ''C'' 995 False] w0)
     = [(record_of ''A'' 900 True)\<lparr>Timestamp := 1000, Value := 42\<rparr>,
        (record_of ''C'' 995 False)\<lparr>Timestamp := 1000, Value := 42, Valid := True\<rparr>] \<and>
   queries (up_world (snd (UpdateExternalMetrics (stub_env 1000 (42, None)) (stub_processor 30)
      [record_of ''A'' 900 True, record_of ''B'' 990 True, record_of ''C'' 995 False] w0)))
     = [(''requests'', Map.empty), (''requests'', Map.empty)]"
  using returned_are_revalidated [of "stub_env 1000 (42, None)" "stub_processor 30"
      "[record_of ''A'' 900 True, record_of ''B'' 990 True, record_of ''C'' 995 False]" w0]
  by (simp add: stub_run)

section \<open>Timestamps across a pass\<close>

lemma revalidate_Timestamp:
  "Timestamp (revalidate e v em) = Now_Unix e (Suc (clock_reads v))"
  by (simp add: revalidate_def split: prod.splits)

lemma clock_reads_bound:
  "clock_reads (up_world (pass_frame e p ems w n)) \<le> clock_reads w + 2 * n"
proof (induction n)
  case 0
  show ?case by (simp add: pass_frame_0)
next
  case (Suc n)
  then show ?case using pass_frame_step_cases [of e p ems w n] by auto
qed

text \<open>
  Claim C9 as it is stated fails: an invalid record whose timestamp is ahead of the clock
  is revalidated, and line 68 sets its timestamp to the clock reading, which is earlier.
\<close>

theorem timestamp_moves_back:
  "fst (UpdateExternalMetrics (stub_env 1000 (0, Some ''timeout'')) (stub_processor 30)
          [record_of ''A'' 2000 False] w0)
     = [(record_of ''A'' 2000 False)\<lparr>Timestamp := 1000, Value := 0\<rparr>] \<and>
   \<not> (Timestamp (record_of ''A'' 2000 False) \<le>s
        Timestamp (hd (fst (UpdateExternalMetrics (stub_env 1000 (0, Some ''timeout''))
          (stub_processor 30) [record_of ''A'' 2000 False] w0))))"
  by (simp add: stub_run)

text \<open>
  Claim C9, amended. When the clock readings taken during a pass of
  \<open>UpdateExternalMetrics\<close> do not decrease, every record of the input list whose
  timestamp is not later than the clock at the start of the pass is either skipped, and
  keeps its timestamp, or returned with a timestamp that is greater than or equal to the
  one it had. Either way the record's timestamp after the pass is not later than the
  clock at the end of the pass, so the condition holds for it again at the next pass.
  Nothing is asked of the other records of the list.
\<close>

theorem timestamp_non_decreasing:
  assumes mono: "\<forall>j k. clock_reads w \<le> j \<and> j \<le> k \<and> k \<le> clock_reads w + 2 * length ems
                   \<longrightarrow> Now_Unix e j \<le>s Now_Unix e k"
    and past: "Timestamp (ems ! i) \<le>s Now_Unix e (clock_reads w)"
    and i: "i < length ems"
  shows "UpdateExternalMetrics e p ems w =
           (updated (pass_frame e p ems w (length ems)), pass_frame e p ems w (length ems)) \<and>
         ((fresh_at e p ems w i \<and>
           updated (pass_frame e p ems w (Suc i)) = updated (pass_frame e p ems w i) \<and>
           Timestamp (ems ! i) \<le>s
             Now_Unix e (clock_reads (up_world (snd (UpdateExternalMetrics e p ems w))))) \<or>
          (\<exists>em'. updated (pass_frame e p ems w (Suc i)) = updated (pass_frame e p ems w i) @ [em'] \<and>
                 (\<exists>rest. fst (UpdateExternalMetrics e p ems w) =
                    updated (pass_frame e p ems w i) @ [em'] @ rest) \<and>
                 Timestamp (ems ! i) \<le>s Timestamp em' \<and>
                 Timestamp em' \<le>s
                   Now_Unix e (clock_reads (up_world (snd (UpdateExternalMetrics e p ems w))))))"
proof -
  let ?s = "pass_frame e p ems w i"
  let ?s' = "pass_frame e p ems w (Suc i)"
  let ?end = "clock_reads (up_world (pass_frame e p ems w (length ems)))"
  have end_lo: "clock_reads w \<le> ?end" by (rule clock_reads_grow)
  have end_hi: "?end \<le> clock_reads w + 2 * length ems" by (rule clock_reads_bound)
  have trans: "a \<le>s c" if "a \<le>s b" and "b \<le>s c" for a b c :: int64
    using that by (simp add: word_sle_eq)
  have kept: "Timestamp (ems ! i) \<le>s Now_Unix e ?end"
  proof -
    from mono end_lo end_hi have "Now_Unix e (clock_reads w) \<le>s Now_Unix e ?end" by simp
    with past show ?thesis by (rule trans)
  qed
  have step: "(fresh_at e p ems w i \<and> updated ?s' = updated ?s \<and>
           Timestamp (ems ! i) \<le>s Now_Unix e ?end) \<or>
          (\<exists>em'. updated ?s' = updated ?s @ [em'] \<and>
                 (\<exists>rest. fst (UpdateExternalMetrics e p ems w) = updated ?s @ [em'] @ rest) \<and>
                 Timestamp (ems ! i) \<le>s Timestamp em' \<and>
                 Timestamp em' \<le>s Now_Unix e ?end)"
  proof (cases "fresh_at e p ems w i")
    case True
    with kept show ?thesis using pass_frame_step_cases [of e p ems w i] by auto
  next
    case False
    let ?k = "Suc (clock_reads (up_world ?s))"
    let ?new = "revalidate e (up_world ?s) (ems ! i)"
    from pass_frame_stale [OF False] have
      u: "updated ?s' = updated ?s @ [?new]"
      and c: "clock_reads (up_world ?s') = Suc ?k"
      by simp_all
    from i obtain d where d: "length ems = Suc i + d"
      using le_Suc_ex [of "Suc i" "length ems"] by auto
    from clock_reads_steps [of e p ems w "Suc i" d] c d have k_end: "?k \<le> ?end" by simp
    have lo: "clock_reads w \<le> ?k" using clock_reads_grow [of w e p ems i] by simp
    from k_end end_hi have hi: "?k \<le> clock_reads w + 2 * length ems" by simp
    from mono lo hi have "Now_Unix e (clock_reads w) \<le>s Now_Unix e ?k" by simp
    with past have "Timestamp (ems ! i) \<le>s Now_Unix e ?k" by (rule trans)
    then have up: "Timestamp (ems ! i) \<le>s Timestamp ?new"
      by (simp add: revalidate_Timestamp)
    from mono lo k_end end_hi have "Now_Unix e ?k \<le>s Now_Unix e ?end" by simp
    then have below: "Timestamp ?new \<le>s Now_Unix e ?end"
      by (simp add: revalidate_Timestamp)
    from i have "Suc i \<le> length ems" by simp
    from result_rest [OF this, of e p w] u
    have "\<exists>rest. fst (UpdateExternalMetrics e p ems w) = updated ?s @ [?new] @ rest"
      by auto
    with u up below show ?thesis by blast
  qed
  then show ?thesis by (simp add: UpdateExternalMetrics_pass)
qed

text \<open>
  The first record is not later than the clock and the theorem applies to it, although
  the second record of the list is ahead of the clock.
\<close>

theorem timestamp_non_decreasing_witness:
  "fst (UpdateExternalMetrics (stub_env 1000 (0, Some ''timeout'')) (stub_processor 30)
          [record_of ''A'' 995 False, record_of ''B'' 2000 False] w0)
     = [(record_of ''A'' 995 False)\<lparr>Timestamp := 1000, Value := 0\<rparr>,
        (record_of ''B'' 2000 False)\<lparr>Timestamp := 1000, Value := 0\<rparr>] \<and>
   Timestamp (record_of ''A'' 995 False) \<le>s
     Timestamp (hd (fst (UpdateExternalMetrics (stub_env 1000 (0, Some ''timeout''))
          (stub_processor 30) [record_of ''A'' 995 False, record_of ''B'' 2000 False] w0)))"
proof -
  have mono: "\<forall>j k. clock_reads w0 \<le> j \<and> j \<le> k \<and>
        k \<le> clock_reads w0 + 2 * length [record_of ''A'' 995 False, record_of ''B'' 2000 False]
      \<longrightarrow> Now_Unix (stub_env 1000 (0, Some ''timeout'')) j
            \<le>s Now_Unix (stub_env 1000 (0, Some ''timeout'')) k"
    by (simp add: stub_env_def)
  have past: "Timestamp ([record_of ''A'' 995 False, record_of ''B'' 2000 False] ! 0)
      \<le>s Now_Unix (stub_env 1000 (0, Some ''timeout'')) (clock_reads w0)"
    by (simp add: stub_env_def record_of_def word_sle_eq)
  have inside: "0 < length [record_of ''A'' 995 False, record_of ''B'' 2000 False]" by simp
  from timestamp_non_decreasing [OF mono past inside, of "stub_processor 30"]
  show ?thesis by (simp add: stub_run pass_frame_def)
qed

section \<open>Extraction\<close>

lemma process_metric_external:
  "Type ms = ExternalMetricSourceType \<Longrightarrow>
   \<exists>m w'. process_metric e p hpa ms (acc, w) = (acc @ [m], w') \<and>
     ExternalMetricValue.MetricName m = ExternalMetricSource.MetricName (External ms) \<and>
     Labels m = MatchLabels (MetricSelector (External ms)) \<and>
     HPA m = owner_of hpa \<and>
     queries w' = queries w @ [(ExternalMetricSource.MetricName (External ms),
                                MatchLabels (MetricSelector (External ms)))] \<and>
     filter is_error_line (log_lines w') = filter is_error_line (log_lines w)"
  by (auto simp: process_metric_def Now_def validateExternalMetric_def query_def Debugf_def
      owner_of_def is_error_line_def Let_def split: prod.splits option.splits)

lemma process_metric_other:
  "Type ms \<noteq> ExternalMetricSourceType \<Longrightarrow>
   process_metric e p hpa ms (acc, w) =
     (acc, w\<lparr>log_lines := log_lines w @ [Debug_UnsupportedMetricType (Type ms)]\<rparr>)"
  by (simp add: process_metric_def Debugf_def)

lemma process_fold:
  "\<exists>recs w'. fold (process_metric e p hpa) mss (acc, w) = (acc @ recs, w') \<and>
     map (\<lambda>m. (ExternalMetricValue.MetricName m, Labels m, HPA m)) recs =
       map (\<lambda>ms. (ExternalMetricSource.MetricName (External ms),
                  MatchLabels (MetricSelector (External ms)), owner_of hpa))
         (filter (\<lambda>ms. Type ms = ExternalMetricSourceType) mss) \<and>
     queries w' = queries w @
       map (\<lambda>ms. (ExternalMetricSource.MetricName (External ms), MatchLabels (MetricSelector (External ms))))
         (filter (\<lambda>ms. Type ms = ExternalMetricSourceType) mss) \<and>
     filter is_error_line (log_lines w') = filter is_error_line (log_lines w)"
proof (induction mss arbitrary: acc w)
  case Nil
  show ?case by simp
next
  case (Cons ms mss)
  show ?case
  proof (cases "Type ms = ExternalMetricSourceType")
    case True
    from process_metric_external [OF True, of e p hpa acc w] obtain m w1 where
      m: "process_metric e p hpa ms (acc, w) = (acc @ [m], w1)"
         "ExternalMetricValue.MetricName m = ExternalMetricSource.MetricName (External ms)"
         "Labels m = MatchLabels (MetricSelector (External ms))"
         "HPA m = owner_of hpa"
         "queries w1 = queries w @ [(ExternalMetricSource.MetricName (External ms),
                                MatchLabels (MetricSelector (External ms)))]"
         "filter is_error_line (log_lines w1) = filter is_error_line (log_lines w)"
      by blast
    from Cons [of "acc @ [m]" w1] obtain recs w' where
      r: "fold (process_metric e p hpa) mss (acc @ [m], w1) = ((acc @ [m]) @ recs, w')"
         "map (\<lambda>m. (ExternalMetricValue.MetricName m, Labels m, HPA m)) recs =
            map (\<lambda>ms. (ExternalMetricSource.MetricName (External ms),
                  MatchLabels (MetricSelector (External ms)), owner_of hpa))
              (filter (\<lambda>ms. Type ms = ExternalMetricSourceType) mss)"
         "queries w' = queries w1 @
            map (\<lambda>ms. (ExternalMetricSource.MetricName (External ms), MatchLabels (MetricSelector (External ms))))
              (filter (\<lambda>ms. Type ms = ExternalMetricSourceType) mss)"
         "filter is_error_line (log_lines w') = filter is_error_line (log_lines w1)"
      by blast
    have "fold (process_metric e p hpa) (ms # mss) (acc, w) = (acc @ (m # recs), w')"
      using m(1) r(1) by simp
    moreover have "map (\<lambda>m. (ExternalMetricValue.MetricName m, Labels m, HPA m)) (m # recs) =
       map (\<lambda>ms. (ExternalMetricSource.MetricName (External ms),
                  MatchLabels (MetricSelector (External ms)), owner_of hpa))
         (filter (\<lambda>ms. Type ms = ExternalMetricSourceType) (ms # mss))"
      using True m(2,3,4) r(2) by simp
    moreover have "queries w' = queries w @
       map (\<lambda>ms. (ExternalMetricSource.MetricName (External ms), MatchLabels (MetricSelector (External ms))))
         (filter (\<lambda>ms. Type ms = ExternalMetricSourceType) (ms # mss))"
      using True m(5) r(3) by simp
    moreover have "filter is_error_line (log_lines w') = filter is_error_line (log_lines w)"
      using m(6) r(4) by simp
    ultimately show ?thesis by blast
  next
    case False
    let ?w1 = "w\<lparr>log_lines := log_lines w @ [Debug_UnsupportedMetricType (Type ms)]\<rparr>"
    have e1: "filter is_error_line (log_lines ?w1) = filter is_error_line (log_lines w)"
      by (simp add: is_error_line_def)
    from Cons [of acc ?w1] obtain recs w' where
      r: "fold (process_metric e p hpa) mss (acc, ?w1) = (acc @ recs, w')"
         "map (\<lambda>m. (ExternalMetricValue.MetricName m, Labels m, HPA m)) recs =
            map (\<lambda>ms. (ExternalMetricSource.MetricName (External ms),
                  MatchLabels (MetricSelector (External ms)), owner_of hpa))
              (filter (\<lambda>ms. Type ms = ExternalMetricSourceType) mss)"
         "queries w' = queries ?w1 @
            map (\<lambda>ms. (ExternalMetricSource.MetricName (External ms), MatchLabels (MetricSelector (External ms))))
              (filter (\<lambda>ms. Type ms = ExternalMetricSourceType) mss)"
         "filter is_error_line (log_lines w') = filter is_error_line (log_lines ?w1)"
      by blast
    have "fold (process_metric e p hpa) (ms # mss) (acc, w) = (acc @ recs, w')"
      using False r(1) by (simp add: process_metric_other)
    moreover have "map (\<lambda>m. (ExternalMetricValue.MetricName m, Labels m, HPA m)) recs =
       map (\<lambda>ms. (ExternalMetricSource.MetricName (External ms),
                  MatchLabels (MetricSelector (External ms)), owner_of hpa))
         (filter (\<lambda>ms. Type ms = ExternalMetricSourceType) (ms # mss))"
      using False r(2) by simp
    moreover have "queries w' = queries w @
       map (\<lambda>ms. (ExternalMetricSource.MetricName (External ms), MatchLabels (MetricSelector (External ms))))
         (filter (\<lambda>ms. Type ms = ExternalMetricSourceType) (ms # mss))"
      using False r(3) by simp
    moreover have "filter is_error_line (log_lines w') = filter is_error_line (log_lines w)"
      using r(4) e1 by simp
    ultimately show ?thesis by blast
  qed
qed

text \<open>
  Claim C7. For every policy object, \<open>ProcessHPAs\<close> returns one record for each entry of
  \<open>Spec.Metrics\<close> whose type is \<open>ExternalMetricSourceType\<close>, in the order of the entries,
  with the metric name and the labels of the entry and the owner reference of the policy;
  the provider is queried once for each such record. An entry of any other type adds no
  record, and no error line is logged for it.
\<close>

theorem extraction_external_only:
  "\<exists>recs w'. ProcessHPAs e p (Some hpa) w = Inr (recs, w') \<and>
     map (\<lambda>m. (ExternalMetricValue.MetricName m, Labels m, HPA m)) recs =
       map (\<lambda>ms. (ExternalMetricSource.MetricName (External ms),
                  MatchLabels (MetricSelector (External ms)), owner_of hpa))
         (filter (\<lambda>ms. Type ms = ExternalMetricSourceType) (Metrics (Spec hpa))) \<and>
     length recs = length (filter (\<lambda>ms. Type ms = ExternalMetricSourceType) (Metrics (Spec hpa))) \<and>
     queries w' = queries w @ map (\<lambda>m. (ExternalMetricValue.MetricName m, Labels m)) recs \<and>
     (Metrics (Spec hpa) \<noteq> [] \<longrightarrow>
        filter is_error_line (log_lines w') = filter is_error_line (log_lines w))"
proof (cases "Metrics (Spec hpa) = []")
  case True
  then show ?thesis by (simp add: ProcessHPAs_def Errorf_def)
next
  case False
  from process_fold [of e p hpa "Metrics (Spec hpa)" "[]" w] obtain recs w' where
    r: "fold (process_metric e p hpa) (Metrics (Spec hpa)) ([], w) = (recs, w')"
       "map (\<lambda>m. (ExternalMetricValue.MetricName m, Labels m, HPA m)) recs =
         map (\<lambda>ms. (ExternalMetricSource.MetricName (External ms),
                  MatchLabels (MetricSelector (External ms)), owner_of hpa))
           (filter (\<lambda>ms. Type ms = ExternalMetricSourceType) (Metrics (Spec hpa)))"
       "queries w' = queries w @
          map (\<lambda>ms. (ExternalMetricSource.MetricName (External ms), MatchLabels (MetricSelector (External ms))))
            (filter (\<lambda>ms. Type ms = ExternalMetricSourceType) (Metrics (Spec hpa)))"
       "filter is_error_line (log_lines w') = filter is_error_line (log_lines w)"
    by auto
  from r(2) have len: "length recs =
      length (filter (\<lambda>ms. Type ms = ExternalMetricSourceType) (Metrics (Spec hpa)))"
    using map_eq_imp_length_eq by fastforce
  have "map (\<lambda>m. (ExternalMetricValue.MetricName m, Labels m)) recs =
      map (\<lambda>t. (fst t, fst (snd t))) (map (\<lambda>m. (ExternalMetricValue.MetricName m, Labels m, HPA m)) recs)"
    by (simp add: o_def)
  also have "\<dots> = map (\<lambda>ms. (ExternalMetricSource.MetricName (External ms), MatchLabels (MetricSelector (External ms))))
            (filter (\<lambda>ms. Type ms = ExternalMetricSourceType) (Metrics (Spec hpa)))"
    unfolding r(2) by (simp add: o_def)
  finally have qs: "queries w' = queries w @ map (\<lambda>m. (ExternalMetricValue.MetricName m, Labels m)) recs"
    using r(3) by simp
  have "ProcessHPAs e p (Some hpa) w = Inr (recs, w')"
    using False r(1) by (simp add: ProcessHPAs_def)
  with r(2) len qs r(4) show ?thesis by blast
qed

text \<open>
  A policy with one external entry and one entry of another type yields exactly one
  record.
\<close>

theorem extraction_external_only_witness:
  "ProcessHPAs (stub_env 1000 (42, None)) (stub_processor 30)
      (Some (policy ''A'' [external_spec ''requests'', resource_spec])) w0
     = Inr ([(record_of ''A'' 1000 True)\<lparr>Value := 42\<rparr>],
            \<lparr>clock_reads = 1, queries = [(''requests'', Map.empty)],
             log_lines = [Debug_UnsupportedMetricType ''Resource'']\<rparr>)"
  using extraction_external_only [of "stub_env 1000 (42, None)" "stub_processor 30"
      "policy ''A'' [external_spec ''requests'', resource_spec]" w0]
  by (simp add: ProcessHPAs_def process_metric_def Now_def validateExternalMetric_def query_def
      Debugf_def stub_env_def stub_processor_def record_of_def policy_def external_spec_def
      resource_spec_def ExternalMetricSourceType_def w0_def Let_def)

text \<open>
  Claim C8. For every policy object whose \<open>Spec.Metrics\<close> is empty, \<open>ProcessHPAs\<close>
  returns normally with the empty list and has written one error line to the log; the
  clock has not been read and the provider has not been queried, so no record is made.
\<close>

theorem extraction_empty_spec:
  assumes "Metrics (Spec hpa) = []"
  shows "ProcessHPAs e p (Some hpa) w =
     Inr ([], w\<lparr>log_lines := log_lines w @
                  [Error_EmptyList (HorizontalPodAutoscaler.Namespace hpa)
                     (HorizontalPodAutoscaler.Name hpa)]\<rparr>)"
  using assms by (simp add: ProcessHPAs_def Errorf_def)

theorem extraction_empty_spec_witness:
  "ProcessHPAs (stub_env 1000 (42, None)) (stub_processor 30) (Some (policy ''A'' [])) w0
     = Inr ([], \<lparr>clock_reads = 0, queries = [],
                 log_lines = [Error_EmptyList ''default'' ''web'']\<rparr>)"
proof -
  have empty: "Metrics (Spec (policy ''A'' [])) = []" by (simp add: policy_def)
  from extraction_empty_spec [OF empty, of "stub_env 1000 (42, None)" "stub_processor 30" w0]
  show ?thesis by (simp add: policy_def w0_def)
qed

end
